theory Spec2Isabelle
  imports Complex_Main
begin

section \<open>Data model\<close>

text \<open>
  The repository holds two variants of the class \<open>CircuitBreaker\<close>: the callback-style one
  of \<^verbatim>\<open>src/circuit-breaker.ts\<close> and the promise-style one of
  \<^verbatim>\<open>src/unnamed/part_001\<close>. Their bucket store, ticker, metrics and force operations
  are line for line the same; they differ in \<open>run\<close>, in \<open>_executeCommand\<close> and in one line
  of \<open>_updateState\<close>. Functions that differ take the variant as a parameter.
\<close>

datatype variant = Callback | Promise

text \<open>\<open>enum CircuitBreakerStatus { OPEN = 0, HALF_OPEN = 1, CLOSED = 2 }\<close>\<close>

datatype CircuitBreakerStatus = OPEN | HALF_OPEN | CLOSED

text \<open>
  \<open>type Bucket\<close>. The callback-style variant has no \<open>ignores\<close> field; it never reads or
  writes one, so the field stays \<open>0\<close> there. Counters start at \<open>0\<close> and only ever grow by
  \<open>++\<close>, so they are natural numbers.
\<close>

record Bucket =
  failures :: nat
  successes :: nat
  timeouts :: nat
  ignores :: nat
  shortCircuits :: nat

text \<open>
  \<open>type Metrics\<close>. The two counts are naturals: they are integers far below \<open>2^53\<close>, which
  doubles hold exactly. The percentage is the rational value of the double that the
  code computes.
\<close>

record Metrics =
  totalCount :: nat
  errorCount :: nat
  errorPercentage :: rat

text \<open>
  Calls the breaker makes to functions supplied by its user, in the order it makes them.
  The observers \<open>onCircuitOpen\<close>, \<open>onCircuitClose\<close> and the \<open>fallback\<close> are taken to
  return normally.
\<close>

datatype call =
  CommandInvoked
| FallbackInvoked
| OnCircuitOpen Metrics
| OnCircuitClose Metrics

text \<open>
  The fields of the class that the operations read or write. \<open>state\<close> and \<open>forced\<close> are
  \<open>_state\<close> and \<open>_forced\<close>; \<open>None\<close> stands for both \<open>null\<close> and \<open>undefined\<close>, which the
  code never tells apart (it only compares with \<open>==\<close>). \<open>bucketIndex\<close> is the variable
  captured by the closure \<open>tick\<close> in \<open>_startTicker\<close>. \<open>calls\<close> is the trace of user
  functions invoked so far. The type \<open>'r\<close> is that of failure reasons (\<open>any\<close>).
  The two thresholds are numbers; they hold the value of the double the user gave.
  \<open>windowDuration\<close> and \<open>timeoutDuration\<close> only set the periods of the two timers; time
  is the order in which ticks, settlements and deadlines happen.
\<close>

record 'r CircuitBreaker =
  numBuckets :: nat
  errorThreshold :: rat
  volumeThreshold :: rat
  circuitFilter :: "'r \<Rightarrow> bool"
  buckets :: "Bucket list"
  state :: "CircuitBreakerStatus option"
  forced :: "CircuitBreakerStatus option"
  bucketIndex :: nat
  calls :: "call list"

section \<open>Construction\<close>

text \<open>The options object; a missing option is \<open>None\<close>.\<close>

record 'r opts =
  opt_numBuckets :: "nat option"
  opt_errorThreshold :: "rat option"
  opt_volumeThreshold :: "rat option"
  opt_circuitFilter :: "('r \<Rightarrow> bool) option"

text \<open>\<open>opts.x || d\<close> on a number: a missing option and \<open>0\<close> are both falsy.\<close>

definition or_default :: "'a::zero option \<Rightarrow> 'a \<Rightarrow> 'a" where
  "or_default x d = (case x of None \<Rightarrow> d | Some v \<Rightarrow> if v = 0 then d else v)"

definition createBucket :: Bucket where
  "createBucket =
     \<lparr>failures = 0, successes = 0, timeouts = 0, ignores = 0, shortCircuits = 0\<rparr>"

text \<open>The constructor. It leaves \<open>_forced\<close> unassigned.\<close>

definition new_CircuitBreaker :: "'r opts \<Rightarrow> 'r CircuitBreaker" where
  "new_CircuitBreaker opts =
     \<lparr>numBuckets = or_default (opt_numBuckets opts) 10,
      errorThreshold = or_default (opt_errorThreshold opts) 50,
      volumeThreshold = or_default (opt_volumeThreshold opts) 5,
      circuitFilter = (case opt_circuitFilter opts of None \<Rightarrow> (\<lambda>_. True) | Some f \<Rightarrow> f),
      buckets = [createBucket],
      state = Some CLOSED,
      forced = None,
      bucketIndex = 0,
      calls = []\<rparr>"

definition no_opts :: "'r opts" where
  "no_opts = \<lparr>opt_numBuckets = None, opt_errorThreshold = None,
               opt_volumeThreshold = None, opt_circuitFilter = None\<rparr>"

section \<open>Force operations and \<open>isOpen\<close>\<close>

definition forceClose :: "'r CircuitBreaker \<Rightarrow> 'r CircuitBreaker" where
  "forceClose b = b\<lparr>forced := state b, state := Some CLOSED\<rparr>"

definition forceOpen :: "'r CircuitBreaker \<Rightarrow> 'r CircuitBreaker" where
  "forceOpen b = b\<lparr>forced := state b, state := Some OPEN\<rparr>"

definition unforce :: "'r CircuitBreaker \<Rightarrow> 'r CircuitBreaker" where
  "unforce b = b\<lparr>state := forced b, forced := None\<rparr>"

definition isOpen :: "'r CircuitBreaker \<Rightarrow> bool" where
  "isOpen b = (state b = Some OPEN)"

section \<open>Ticker\<close>

text \<open>
  The body of \<open>tick\<close>: drop the oldest bucket when more than \<open>numBuckets\<close> are held,
  count the tick, wrap the counter and offer the probe, append a fresh bucket.
  \<open>shift\<close> on an empty array does nothing, as \<open>tl\<close> does.
\<close>

definition tick :: "'r CircuitBreaker \<Rightarrow> 'r CircuitBreaker" where
  "tick b =
     (let b1 = (if length (buckets b) > numBuckets b
                then b\<lparr>buckets := tl (buckets b)\<rparr> else b);
          b2 = b1\<lparr>bucketIndex := bucketIndex b1 + 1\<rparr>;
          b3 = (if bucketIndex b2 > numBuckets b2
                then (let b2' = b2\<lparr>bucketIndex := 0\<rparr>
                      in if isOpen b2' then b2'\<lparr>state := Some HALF_OPEN\<rparr> else b2')
                else b2)
      in b3\<lparr>buckets := buckets b3 @ [createBucket]\<rparr>)"

section \<open>Double arithmetic\<close>

text \<open>
  A JavaScript number is an IEEE-754 binary64 value, and \<open>/\<close> and \<open>*\<close> return the double
  nearest to the exact result, ties going to the even significand. A double is modelled
  by the rational number it denotes. The values that occur here are \<open>0\<close> or lie between
  \<open>2^-53\<close> and \<open>100\<close>, far inside the normal range, so rounding keeps 53 significant
  bits and neither overflow nor subnormal numbers arise.
\<close>

text \<open>The number of binary digits of a positive integer.\<close>

function bitlen :: "int \<Rightarrow> nat" where
  "bitlen n = (if n \<le> 0 then 0 else Suc (bitlen (n div 2)))"
  by pat_completeness auto
termination
  by (relation "measure nat") auto

declare bitlen.simps [simp del]

definition pow2 :: "int \<Rightarrow> rat" where
  "pow2 e = (if 0 \<le> e then 2 ^ nat e else 1 / 2 ^ nat (- e))"

text \<open>The binary exponent of a positive number: the \<open>e\<close> with \<open>2^e \<le> x < 2^(e+1)\<close>.\<close>

definition exponent :: "rat \<Rightarrow> int" where
  "exponent x =
     (if 1 \<le> x then int (bitlen \<lfloor>x\<rfloor>) - 1
      else (let n = int (bitlen \<lfloor>1 / x\<rfloor>)
            in if pow2 (1 - n) \<le> x then 1 - n else - n))"

text \<open>The nearest integer, a tie going to the even one.\<close>

definition round_half_even :: "rat \<Rightarrow> int" where
  "round_half_even x =
     (let f = \<lfloor>x\<rfloor>; r = x - of_int f
      in if r < 1 / 2 then f else if 1 / 2 < r then f + 1 else if even f then f else f + 1)"

text \<open>The double nearest to a number: its significand is rounded to 53 bits.\<close>

definition double :: "rat \<Rightarrow> rat" where
  "double x =
     (if x = 0 then 0
      else (let e = exponent \<bar>x\<bar> - 52
            in sgn x * of_int (round_half_even (\<bar>x\<bar> / pow2 e)) * pow2 e))"

text \<open>The operators \<open>/\<close> and \<open>*\<close> of the language on two doubles.\<close>

definition div_double :: "rat \<Rightarrow> rat \<Rightarrow> rat" where
  "div_double x y = double (x / y)"

definition mul_double :: "rat \<Rightarrow> rat \<Rightarrow> rat" where
  "mul_double x y = double (x * y)"

text \<open>
  \<open>(errorCount / d) * 100\<close>: the quotient is rounded, then the product. The two counts
  are doubles already.
\<close>

definition percentage :: "nat \<Rightarrow> nat \<Rightarrow> rat" where
  "percentage ec d = mul_double (div_double (of_nat ec) (of_nat d)) 100"

section \<open>Metrics\<close>

text \<open>
  The \<open>for\<close> loop of \<open>_calculateMetrics\<close>, with its accumulators \<open>totalCount\<close> (here \<open>tc\<close>)
  and \<open>errorCount\<close> (here \<open>ec\<close>).
\<close>

fun metrics_loop :: "Bucket list \<Rightarrow> nat \<Rightarrow> nat \<Rightarrow> nat \<times> nat" where
  "metrics_loop [] tc ec = (tc, ec)"
| "metrics_loop (bucket # rest) tc ec =
     (let errors = failures bucket + timeouts bucket
      in metrics_loop rest (tc + (errors + successes bucket)) (ec + errors))"

definition calculateMetrics :: "'r CircuitBreaker \<Rightarrow> Metrics" where
  "calculateMetrics b =
     (case metrics_loop (buckets b) 0 0 of (tc, ec) \<Rightarrow>
        \<lparr>totalCount = tc, errorCount = ec,
         errorPercentage = percentage ec (if tc > 0 then tc else 1)\<rparr>)"

section \<open>State evaluation\<close>

text \<open>
  A fault of the breaker's own bookkeeping: \<open>_lastBucket()\<close> on an empty store is
  \<open>undefined\<close>, and reading or incrementing a property of it throws a \<open>TypeError\<close>.
  A faulted operation returns \<open>Inl TypeError\<close>.
\<close>

datatype fault = TypeError

definition lastBucket :: "'r CircuitBreaker \<Rightarrow> Bucket option" where
  "lastBucket b = (if buckets b = [] then None else Some (last (buckets b)))"

text \<open>
  \<open>_updateState\<close>. On a failed probe the promise-style variant calls \<open>onCircuitOpen\<close>,
  the callback-style one does not.
\<close>

definition updateState :: "variant \<Rightarrow> 'r CircuitBreaker \<Rightarrow> fault + 'r CircuitBreaker" where
  "updateState v b =
     (let metrics = calculateMetrics b
      in if state b = Some HALF_OPEN
         then (case lastBucket b of
                 None \<Rightarrow> Inl TypeError
               | Some bucket \<Rightarrow>
                   (let lastCommandFailed = (successes bucket = 0 \<and> errorCount metrics > 0)
                    in if lastCommandFailed
                       then (case v of
                               Callback \<Rightarrow> Inr (b\<lparr>state := Some OPEN\<rparr>)
                             | Promise \<Rightarrow>
                                 Inr (b\<lparr>state := Some OPEN,
                                        calls := calls b @ [OnCircuitOpen metrics]\<rparr>))
                       else Inr (b\<lparr>state := Some CLOSED,
                                   calls := calls b @ [OnCircuitClose metrics]\<rparr>)))
         else (let overErrorThreshold = (errorPercentage metrics > errorThreshold b);
                   overVolumeThreshold = (of_nat (totalCount metrics) > volumeThreshold b);
                   overThreshold = (overVolumeThreshold \<and> overErrorThreshold)
               in if overThreshold
                  then Inr (b\<lparr>state := Some OPEN,
                              calls := calls b @ [OnCircuitOpen metrics]\<rparr>)
                  else Inr b))"

section \<open>Command executor\<close>

text \<open>
  The variable \<open>timeout\<close> of one activation of \<open>_executeCommand\<close>: the handle that
  \<open>setTimeout\<close> returned, or \<open>None\<close> for \<open>null\<close>. Handles are truthy in every host
  (positive integers in a browser, objects in Node), so \<open>!timeout\<close> is \<open>timeout = None\<close>.
  Every activation has a variable of its own, which only its own closures reach.
\<close>

type_synonym timer = "nat option"

text \<open>The property names that \<open>increment\<close> is called with.\<close>

datatype counter = Successes | Failures | Timeouts | Ignores

text \<open>\<open>bucket[prop]++\<close>\<close>

fun bump :: "counter \<Rightarrow> Bucket \<Rightarrow> Bucket" where
  "bump Successes bucket = bucket\<lparr>successes := successes bucket + 1\<rparr>"
| "bump Failures bucket = bucket\<lparr>failures := failures bucket + 1\<rparr>"
| "bump Timeouts bucket = bucket\<lparr>timeouts := timeouts bucket + 1\<rparr>"
| "bump Ignores bucket = bucket\<lparr>ignores := ignores bucket + 1\<rparr>"

text \<open>
  The closure returned by \<open>increment(prop)\<close>. In the callback-style variant it starts
  with the guard \<open>if (!timeout) { return }\<close>; in the promise-style variant the guard is
  in the three callers instead. The bucket is updated in place, the state is evaluated
  unless a force is active, and the timer is cleared.
\<close>

definition increment ::
  "variant \<Rightarrow> counter \<Rightarrow> timer \<times> 'r CircuitBreaker \<Rightarrow> fault + (timer \<times> 'r CircuitBreaker)"
where
  "increment v p tb =
     (case tb of (t, b) \<Rightarrow>
        if v = Callback \<and> t = None then Inr (t, b)
        else (case lastBucket b of
                None \<Rightarrow> Inl TypeError
              | Some bucket \<Rightarrow>
                  (let b1 = b\<lparr>buckets := butlast (buckets b) @ [bump p bucket]\<rparr>
                   in map_sum id (Pair None)
                        (if forced b1 = None then updateState v b1 else Inr b1))))"

text \<open>
  What can happen to a command in flight: it succeeds (with a result), it fails (with a
  reason), or its deadline fires. In the callback-style variant the first two are the
  calls \<open>success()\<close> and \<open>failed()\<close>, which carry nothing.
\<close>

datatype ('t, 'r) event = Fulfilled 't | Rejected 'r | Deadline

text \<open>What the promise returned by \<open>run\<close> tells the caller.\<close>

datatype 'r failure = CircuitOpenError | CircuitWorkerTimeout | Reason 'r

datatype ('t, 'r) signal = Resolve 't | Reject "'r failure"

text \<open>
  The three callbacks of the promise-style \<open>_executeCommand\<close>: the two given to \<open>then\<close>
  and the one given to \<open>setTimeout\<close>.
\<close>

definition settle_promise ::
  "('t, 'r) event \<Rightarrow> timer \<times> 'r CircuitBreaker
     \<Rightarrow> fault + ((timer \<times> 'r CircuitBreaker) \<times> ('t, 'r) signal option)"
where
  "settle_promise ev tb =
     (if fst tb = None then Inr (tb, None)
      else (case ev of
              Fulfilled result \<Rightarrow>
                map_sum id (\<lambda>tb'. (tb', Some (Resolve result)))
                  (increment Promise Successes tb)
            | Rejected reason \<Rightarrow>
                map_sum id (\<lambda>tb'. (tb', Some (Reject (Reason reason))))
                  (if \<not> circuitFilter (snd tb) reason
                   then increment Promise Ignores tb
                   else increment Promise Failures tb)
            | Deadline \<Rightarrow>
                map_sum id (\<lambda>tb'. (tb', Some (Reject CircuitWorkerTimeout)))
                  (increment Promise Timeouts tb)))"

text \<open>
  The three closures of the callback-style \<open>_executeCommand\<close>: \<open>increment('successes')\<close>,
  \<open>increment('failures')\<close> and \<open>increment('timeouts')\<close>. The caller is told nothing.
\<close>

definition settle_callback ::
  "('t, 'r) event \<Rightarrow> timer \<times> 'r CircuitBreaker
     \<Rightarrow> fault + ((timer \<times> 'r CircuitBreaker) \<times> ('t, 'r) signal option)"
where
  "settle_callback ev tb =
     map_sum id (\<lambda>tb'. (tb', None))
       (case ev of
          Fulfilled _ \<Rightarrow> increment Callback Successes tb
        | Rejected _ \<Rightarrow> increment Callback Failures tb
        | Deadline \<Rightarrow> increment Callback Timeouts tb)"

definition settle ::
  "variant \<Rightarrow> ('t, 'r) event \<Rightarrow> timer \<times> 'r CircuitBreaker
     \<Rightarrow> fault + ((timer \<times> 'r CircuitBreaker) \<times> ('t, 'r) signal option)"
where
  "settle v ev tb = (case v of Promise \<Rightarrow> settle_promise ev tb | Callback \<Rightarrow> settle_callback ev tb)"

text \<open>Several events of one activation, one after the other.\<close>

fun settle_all ::
  "variant \<Rightarrow> ('t, 'r) event list \<Rightarrow> timer \<times> 'r CircuitBreaker
     \<Rightarrow> fault + (timer \<times> 'r CircuitBreaker)"
where
  "settle_all v [] tb = Inr tb"
| "settle_all v (ev # evs) tb =
     (case settle v ev tb of Inl f \<Rightarrow> Inl f | Inr (tb', _) \<Rightarrow> settle_all v evs tb')"

text \<open>\<open>bucket.shortCircuits++\<close> on the last bucket.\<close>

definition incrementShortCircuits :: "'r CircuitBreaker \<Rightarrow> fault + 'r CircuitBreaker" where
  "incrementShortCircuits b =
     (case lastBucket b of
        None \<Rightarrow> Inl TypeError
      | Some bucket \<Rightarrow>
          Inr (b\<lparr>buckets := butlast (buckets b)
                              @ [bucket\<lparr>shortCircuits := shortCircuits bucket + 1\<rparr>]\<rparr>))"

subsection \<open>The promise-style \<open>run\<close>\<close>

text \<open>
  What a promise-style command does when it is called: it returns a plain value, it
  returns a promise, or it throws. A promise is described by its fate.
\<close>

datatype ('t, 'r) promise = Fulfils 't | Rejects 'r | Pending

datatype ('t, 'r) command = Returns 't | ReturnsPromise "('t, 'r) promise" | Throws 'r

fun wrapPromise :: "('t, 'r) command \<Rightarrow> ('t, 'r) promise" where
  "wrapPromise (Returns ret) = Fulfils ret"
| "wrapPromise (ReturnsPromise p) = p"
| "wrapPromise (Throws e) = Rejects e"

text \<open>
  The result of the synchronous part of \<open>run\<close>: either the returned promise is already
  rejected, or a command is in flight with its timer armed and the wrapped promise
  waiting for its callbacks.
\<close>

datatype ('t, 'r) promise_run = Refused "'r failure" | Executing timer "('t, 'r) promise"

definition run_promise ::
  "nat \<Rightarrow> ('t, 'r) command \<Rightarrow> 'r CircuitBreaker
     \<Rightarrow> fault + ('r CircuitBreaker \<times> ('t, 'r) promise_run)"
where
  "run_promise h command b =
     (if isOpen b
      then map_sum id (\<lambda>b'. (b', Refused CircuitOpenError)) (incrementShortCircuits b)
      else Inr (b\<lparr>calls := calls b @ [CommandInvoked]\<rparr>,
                Executing (Some h) (wrapPromise command)))"

subsection \<open>The callback-style \<open>run\<close>\<close>

text \<open>
  What a callback-style command does when it is called with the two closures: the
  events it raises before it returns, and the value it throws, if it throws.
\<close>

type_synonym ('t, 'r) callback_command = "('t, 'r) event list \<times> 'r option"

text \<open>
  What the caller of the callback-style \<open>run\<close> observes: \<open>run\<close> returns (it is \<open>void\<close>, so
  it returns nothing), or an exception leaves it.
\<close>

datatype 'r completion = Returned | Threw 'r

text \<open>
  The result of \<open>run\<close>: the breaker, the timer variable of the activation of
  \<open>_executeCommand\<close> that this \<open>run\<close> created (\<open>None\<close> when it created none), and what the
  caller observes.
\<close>

text \<open>The fallback is \<open>True\<close> when the caller supplied one.\<close>

definition run_callback ::
  "nat \<Rightarrow> ('t, 'r) callback_command \<Rightarrow> bool \<Rightarrow> 'r CircuitBreaker
     \<Rightarrow> fault + ('r CircuitBreaker \<times> (timer option \<times> 'r completion))"
where
  "run_callback h command fallback b =
     (if isOpen b
      then map_sum id (\<lambda>b'. (b', (None, Returned)))
             (incrementShortCircuits
                (if fallback then b\<lparr>calls := calls b @ [FallbackInvoked]\<rparr> else b))
      else map_sum id
             (\<lambda>tb. (snd tb,
                    (Some (fst tb),
                     (case snd command of None \<Rightarrow> Returned | Some e \<Rightarrow> Threw e))))
             (settle_all Callback (fst command)
                (Some h, b\<lparr>calls := calls b @ [CommandInvoked]\<rparr>)))"

subsection \<open>Whole runs\<close>

text \<open>
  A promise-style run together with the one event that decides it, when nothing else
  happens in between: the callback matching the fate of the wrapped promise, or the
  deadline when the promise stays pending.
\<close>

fun fate :: "('t, 'r) promise \<Rightarrow> ('t, 'r) event" where
  "fate (Fulfils x) = Fulfilled x"
| "fate (Rejects e) = Rejected e"
| "fate Pending = Deadline"

definition run_through ::
  "nat \<Rightarrow> ('t, 'r) command \<Rightarrow> 'r CircuitBreaker \<Rightarrow> fault + 'r CircuitBreaker"
where
  "run_through h command b =
     (case run_promise h command b of
        Inl f \<Rightarrow> Inl f
      | Inr (b', Refused _) \<Rightarrow> Inr b'
      | Inr (b', Executing t p) \<Rightarrow> map_sum id (\<lambda>r. snd (fst r)) (settle Promise (fate p) (t, b')))"

text \<open>The same operation \<open>n\<close> times in a row, stopping at a fault.\<close>

fun repeatedly :: "nat \<Rightarrow> ('a \<Rightarrow> fault + 'a) \<Rightarrow> 'a \<Rightarrow> fault + 'a" where
  "repeatedly 0 f x = Inr x"
| "repeatedly (Suc n) f x = (case f x of Inl e \<Rightarrow> Inl e | Inr y \<Rightarrow> repeatedly n f y)"

section \<open>Measures and examples used in the statements\<close>

text \<open>
  The counter that the handler of an event increments: successes, failures (ignores when
  the promise-style filter returns false for the reason) or timeouts.
\<close>

definition counter_of :: "variant \<Rightarrow> ('t, 'r) event \<Rightarrow> 'r CircuitBreaker \<Rightarrow> counter" where
  "counter_of v ev b =
     (case ev of
        Fulfilled _ \<Rightarrow> Successes
      | Rejected reason \<Rightarrow> if v = Promise \<and> \<not> circuitFilter b reason then Ignores else Failures
      | Deadline \<Rightarrow> Timeouts)"

text \<open>The number of outcomes recorded in the retained buckets.\<close>

definition recorded :: "'r CircuitBreaker \<Rightarrow> nat" where
  "recorded b = (\<Sum>bk\<leftarrow>buckets b. successes bk + failures bk + timeouts bk + ignores bk)"

text \<open>
  A breaker with \<open>numBuckets = 1\<close> that is half open while six failures are still in its
  window: it was constructed, ticked once, failed six times (which opened it) and ticked
  once more (which wrapped the tick counter).
\<close>

definition probe_before :: "string CircuitBreaker" where
  "probe_before =
     \<lparr>numBuckets = 1, errorThreshold = 50, volumeThreshold = 5, circuitFilter = (\<lambda>_. True),
      buckets = [\<lparr>failures = 6, successes = 0, timeouts = 0, ignores = 0, shortCircuits = 0\<rparr>,
                 \<lparr>failures = 0, successes = 0, timeouts = 0, ignores = 0, shortCircuits = 0\<rparr>],
      state = Some HALF_OPEN, forced = None, bucketIndex = 0,
      calls = [CommandInvoked, CommandInvoked, CommandInvoked, CommandInvoked, CommandInvoked,
               CommandInvoked,
               OnCircuitOpen \<lparr>totalCount = 6, errorCount = 6, errorPercentage = 100\<rparr>]\<rparr>"

text \<open>
  The same breaker after its probe has succeeded. The percentage is the double
  \<open>85.71428571428571\<close>.
\<close>

definition probe_after :: "string CircuitBreaker" where
  "probe_after =
     probe_before
       \<lparr>buckets := [\<lparr>failures = 6, successes = 0, timeouts = 0, ignores = 0, shortCircuits = 0\<rparr>,
                    \<lparr>failures = 0, successes = 1, timeouts = 0, ignores = 0, shortCircuits = 0\<rparr>],
        state := Some CLOSED,
        calls := calls probe_before
                 @ [OnCircuitClose
                      \<lparr>totalCount = 7, errorCount = 6,
                       errorPercentage = 6031606643799771 / 70368744177664\<rparr>]\<rparr>"

text \<open>
  The breaker of the example one tick earlier: open, with the six failures in its active
  bucket.
\<close>

definition tripped :: "string CircuitBreaker" where
  "tripped =
     \<lparr>numBuckets = 1, errorThreshold = 50, volumeThreshold = 5, circuitFilter = (\<lambda>_. True),
      buckets = [\<lparr>failures = 0, successes = 0, timeouts = 0, ignores = 0, shortCircuits = 0\<rparr>,
                 \<lparr>failures = 6, successes = 0, timeouts = 0, ignores = 0, shortCircuits = 0\<rparr>],
      state = Some OPEN, forced = None, bucketIndex = 1,
      calls = [CommandInvoked, CommandInvoked, CommandInvoked, CommandInvoked, CommandInvoked,
               CommandInvoked,
               OnCircuitOpen \<lparr>totalCount = 6, errorCount = 6, errorPercentage = 100\<rparr>]\<rparr>"

text \<open>
  The open breaker after a command that was already in flight has failed, and after a
  run that was short-circuited.
\<close>

definition tripped_again :: "string CircuitBreaker" where
  "tripped_again =
     tripped
       \<lparr>buckets := [\<lparr>failures = 0, successes = 0, timeouts = 0, ignores = 0, shortCircuits = 0\<rparr>,
                    \<lparr>failures = 7, successes = 0, timeouts = 0, ignores = 0, shortCircuits = 0\<rparr>],
        calls := calls tripped
                 @ [OnCircuitOpen \<lparr>totalCount = 7, errorCount = 7, errorPercentage = 100\<rparr>]\<rparr>"

definition tripped_refused :: "string CircuitBreaker" where
  "tripped_refused =
     tripped
       \<lparr>buckets := [\<lparr>failures = 0, successes = 0, timeouts = 0, ignores = 0, shortCircuits = 0\<rparr>,
                    \<lparr>failures = 6, successes = 0, timeouts = 0, ignores = 0, shortCircuits = 1\<rparr>]\<rparr>"

text \<open>
  A breaker with \<open>errorThreshold = 55\<close> after nine successful and ten failed runs, and the
  same breaker after an eleventh failure. The percentage then is the double
  \<open>55.00000000000001\<close>.
\<close>

definition ten_of_nineteen :: "string CircuitBreaker" where
  "ten_of_nineteen =
     \<lparr>numBuckets = 10, errorThreshold = 55, volumeThreshold = 5, circuitFilter = (\<lambda>_. True),
      buckets = [\<lparr>failures = 10, successes = 9, timeouts = 0, ignores = 0, shortCircuits = 0\<rparr>],
      state = Some CLOSED, forced = None, bucketIndex = 0,
      calls = replicate 19 CommandInvoked\<rparr>"

definition eleven_of_twenty :: "string CircuitBreaker" where
  "eleven_of_twenty =
     ten_of_nineteen
       \<lparr>buckets := [\<lparr>failures = 11, successes = 9, timeouts = 0, ignores = 0, shortCircuits = 0\<rparr>],
        state := Some OPEN,
        calls := calls ten_of_nineteen
                 @ [OnCircuitOpen
                      \<lparr>totalCount = 20, errorCount = 11, errorPercentage = 55 + 1 / 2 ^ 47\<rparr>]\<rparr>"

text \<open>A breaker with default options and a filter that rejects one reason.\<close>

definition picky :: "string CircuitBreaker" where
  "picky = new_CircuitBreaker (no_opts\<lparr>opt_circuitFilter := Some (\<lambda>r. r \<noteq> ''not found'')\<rparr>)"

section \<open>Properties of the double arithmetic\<close>

text \<open>
  The rounding agrees with the doubles of the language on the values used below:
  \<open>0.55\<close>, \<open>55.00000000000001\<close>, \<open>85.71428571428571\<close>, \<open>7.000000000000001\<close>,
  \<open>56.99999999999999\<close>, \<open>33.33333333333333\<close>; exact results are kept, integers up to
  \<open>2^53\<close> are kept, and beyond that a tie goes to the even significand.
\<close>

lemma double_examples:
  "double 1 = 1"
  "double 100 = 100"
  "double (11 / 20) = 2476979795053773 / 4503599627370496"
  "percentage 11 20 = 7740561859543041 / 140737488355328"
  "percentage 6 7 = 6031606643799771 / 70368744177664"
  "percentage 7 100 = 7881299347898369 / 1125899906842624"
  "percentage 57 100 = 8022036836253695 / 140737488355328"
  "percentage 1 3 = 2345624805922133 / 70368744177664"
  "percentage 3 4 = 75"
  "percentage 1 2 = 50"
  "percentage 1 8 = 25 / 2"
  "double 9007199254740992 = 9007199254740992"
  "double 9007199254740993 = 9007199254740992"
  "double 9007199254740995 = 9007199254740996"
  by code_simp+

lemma double_0: "double 0 = 0"
  by (simp add: double_def)

lemma percentage_none: "percentage 0 d = 0"
  by (simp add: percentage_def div_double_def mul_double_def double_0)

lemma percentage_all: "0 < n \<Longrightarrow> percentage n n = 100"
  by (simp add: percentage_def div_double_def mul_double_def double_examples)

lemma percentage_11_20: "percentage 11 20 = 55 + 1 / 2 ^ 47"
  by (simp add: double_examples)

section \<open>Properties of the metrics\<close>

lemma metrics_loop_sums:
  "metrics_loop bs t e =
     (t + (\<Sum>bk\<leftarrow>bs. successes bk + failures bk + timeouts bk),
      e + (\<Sum>bk\<leftarrow>bs. failures bk + timeouts bk))"
  by (induction bs arbitrary: t e) (simp_all add: Let_def)

lemma metrics_loop_ignores:
  "metrics_loop (map (\<lambda>bk. bk\<lparr>ignores := i bk, shortCircuits := s bk\<rparr>) bs) t e =
   metrics_loop bs t e"
  by (induction bs arbitrary: t e) (simp_all add: Let_def)

text \<open>
  Claim C2. The metrics are computed from all retained buckets: \<open>totalCount\<close> is the sum
  of successes, failures and timeouts, \<open>errorCount\<close> the sum of failures and timeouts,
  and \<open>errorPercentage\<close> is \<open>errorCount / max(totalCount, 1) * 100\<close> with the division
  and the multiplication of the language, each giving the nearest double. Setting the
  \<open>ignores\<close> and \<open>shortCircuits\<close> counters of the buckets to anything else changes none
  of the three. The calculation returns the metrics only: it has no breaker to return.
\<close>

theorem calculateMetrics_sums:
  "totalCount (calculateMetrics b) =
     (\<Sum>bk\<leftarrow>buckets b. successes bk + failures bk + timeouts bk)
   \<and> errorCount (calculateMetrics b) = (\<Sum>bk\<leftarrow>buckets b. failures bk + timeouts bk)
   \<and> errorPercentage (calculateMetrics b) =
       mul_double
         (div_double (of_nat (errorCount (calculateMetrics b)))
            (of_nat (max (totalCount (calculateMetrics b)) 1)))
         100
   \<and> calculateMetrics
       (b\<lparr>buckets := map (\<lambda>bk. bk\<lparr>ignores := i bk, shortCircuits := s bk\<rparr>) (buckets b)\<rparr>)
     = calculateMetrics b"
proof -
  have d: "(if 0 < n then n else 1) = max n 1" for n :: nat
    by (cases n) simp_all
  have sums: "totalCount (calculateMetrics b) =
                (\<Sum>bk\<leftarrow>buckets b. successes bk + failures bk + timeouts bk)
              \<and> errorCount (calculateMetrics b) =
                (\<Sum>bk\<leftarrow>buckets b. failures bk + timeouts bk)
              \<and> errorPercentage (calculateMetrics b) =
                  mul_double
                    (div_double (of_nat (errorCount (calculateMetrics b)))
                       (of_nat (max (totalCount (calculateMetrics b)) 1)))
                    100"
    by (simp add: calculateMetrics_def metrics_loop_sums d percentage_def)
  have frame: "calculateMetrics
       (b\<lparr>buckets := map (\<lambda>bk. bk\<lparr>ignores := i bk, shortCircuits := s bk\<rparr>) (buckets b)\<rparr>)
     = calculateMetrics b"
    by (simp add: calculateMetrics_def metrics_loop_ignores)
  from sums frame show ?thesis by blast
qed

text \<open>
  The rounding shows in the metrics: for eleven errors out of twenty outcomes the
  percentage is \<open>55.00000000000001\<close>, that is \<open>55 + 2^-47\<close>, one unit in the last place
  above the exact quotient.
\<close>

lemma percentage_eleven_of_twenty:
  "totalCount (calculateMetrics eleven_of_twenty) = 20
   \<and> errorCount (calculateMetrics eleven_of_twenty) = 11
   \<and> errorPercentage (calculateMetrics eleven_of_twenty) = 55 + 1 / 2 ^ 47
   \<and> errorPercentage (calculateMetrics eleven_of_twenty) \<noteq> 11 / 20 * 100"
  by (simp add: calculateMetrics_def eleven_of_twenty_def ten_of_nineteen_def Let_def
        percentage_11_20)

section \<open>Properties of recording an outcome\<close>

lemma increment_armed:
  "buckets b \<noteq> [] \<Longrightarrow>
   increment v p (Some h, b) =
     map_sum id (Pair None)
       (if forced b = None
        then updateState v (b\<lparr>buckets := butlast (buckets b) @ [bump p (last (buckets b))]\<rparr>)
        else Inr (b\<lparr>buckets := butlast (buckets b) @ [bump p (last (buckets b))]\<rparr>))"
  by (simp add: increment_def lastBucket_def Let_def)

lemma updateState_not_half_open:
  "state b \<noteq> Some HALF_OPEN \<Longrightarrow>
   updateState v b =
     Inr (if of_nat (totalCount (calculateMetrics b)) > volumeThreshold b
             \<and> errorPercentage (calculateMetrics b) > errorThreshold b
          then b\<lparr>state := Some OPEN, calls := calls b @ [OnCircuitOpen (calculateMetrics b)]\<rparr>
          else b)"
  by (simp add: updateState_def Let_def)

lemma updateState_half_open:
  "state b = Some HALF_OPEN \<Longrightarrow> buckets b \<noteq> [] \<Longrightarrow>
   updateState v b =
     Inr (if successes (last (buckets b)) = 0 \<and> errorCount (calculateMetrics b) > 0
          then b\<lparr>state := Some OPEN,
                 calls := calls b @ (if v = Promise then [OnCircuitOpen (calculateMetrics b)] else [])\<rparr>
          else b\<lparr>state := Some CLOSED, calls := calls b @ [OnCircuitClose (calculateMetrics b)]\<rparr>)"
  by (cases v) (simp_all add: updateState_def lastBucket_def Let_def)

lemma updateState_frame:
  "updateState v b = Inr b' \<Longrightarrow>
   buckets b' = buckets b \<and> forced b' = forced b \<and> circuitFilter b' = circuitFilter b"
  by (auto simp: updateState_def Let_def split: if_splits option.splits variant.splits)

lemma updateState_total:
  "buckets b \<noteq> [] \<Longrightarrow> \<exists>b'. updateState v b = Inr b'"
  by (cases v) (simp_all add: updateState_def lastBucket_def Let_def)

lemma increment_armed_result:
  assumes "buckets b \<noteq> []"
  shows "\<exists>b'. increment v p (Some h, b) = Inr (None, b')
              \<and> buckets b' = butlast (buckets b) @ [bump p (last (buckets b))]
              \<and> forced b' = forced b"
proof -
  let ?b1 = "b\<lparr>buckets := butlast (buckets b) @ [bump p (last (buckets b))]\<rparr>"
  have ne: "buckets ?b1 \<noteq> []" by simp
  show ?thesis
  proof (cases "forced b = None")
    case True
    from updateState_total [OF ne, of v] obtain b' where u: "updateState v ?b1 = Inr b'" by blast
    from updateState_frame [OF u] have "buckets b' = buckets ?b1 \<and> forced b' = forced ?b1"
      by blast
    with u True assms show ?thesis by (simp add: increment_armed)
  next
    case False
    with assms show ?thesis by (auto simp add: increment_armed)
  qed
qed

lemma settle_fired: "settle v ev (None, b) = Inr ((None, b), None)"
  by (cases v; cases ev) (simp_all add: settle_def settle_promise_def settle_callback_def increment_def)

lemma settle_all_fired: "settle_all v evs (None, b) = Inr (None, b)"
  by (induction evs) (simp_all add: settle_fired)

lemma settle_armed:
  assumes "buckets b \<noteq> []"
  shows "\<exists>b' s. settle v ev (Some h, b) = Inr ((None, b'), s)
              \<and> buckets b' = butlast (buckets b) @ [bump (counter_of v ev b) (last (buckets b))]
              \<and> forced b' = forced b"
proof -
  from increment_armed_result [OF assms, of v "counter_of v ev b" h]
  obtain b' where i: "increment v (counter_of v ev b) (Some h, b) = Inr (None, b')"
    and r: "buckets b' = butlast (buckets b) @ [bump (counter_of v ev b) (last (buckets b))]"
           "forced b' = forced b"
    by blast
  from i have "\<exists>s. settle v ev (Some h, b) = Inr ((None, b'), s)"
    by (cases v; cases ev)
       (simp_all add: settle_def settle_promise_def settle_callback_def counter_of_def
          split: if_splits)
  with r show ?thesis by blast
qed

text \<open>
  The bucket store is never empty: the constructor creates one bucket, a tick appends one
  after dropping at most one, and nothing else changes the length of the store. So the
  handlers of a call never fault.
\<close>

lemma store_never_empty:
  "buckets (new_CircuitBreaker opts) \<noteq> []"
  "buckets (tick b) \<noteq> []"
  "buckets (forceOpen b) = buckets b"
  "buckets (forceClose b) = buckets b"
  "buckets (unforce b) = buckets b"
  by (simp_all add: new_CircuitBreaker_def tick_def forceOpen_def forceClose_def unforce_def
        Let_def)

lemma settle_returns:
  assumes "buckets b \<noteq> []"
  shows "\<exists>t' b' s. settle v ev (t, b) = Inr ((t', b'), s) \<and> buckets b' \<noteq> []"
proof (cases t)
  case None
  with assms show ?thesis by (simp add: settle_fired)
next
  case (Some h)
  from settle_armed [OF assms, of v ev h] Some show ?thesis by fastforce
qed

lemma settle_all_returns:
  assumes "buckets b \<noteq> []"
  shows "\<exists>t' b'. settle_all v evs (t, b) = Inr (t', b') \<and> buckets b' \<noteq> []"
  using assms
proof (induction evs arbitrary: t b)
  case Nil
  then show ?case by simp
next
  case (Cons ev evs)
  from settle_returns [OF Cons.prems, of v ev t]
  obtain t1 b1 s where one: "settle v ev (t, b) = Inr ((t1, b1), s)" and ne: "buckets b1 \<noteq> []"
    by blast
  from Cons.IH [OF ne, of t1] one show ?case by simp
qed

lemma recorded_bump:
  assumes "buckets b \<noteq> []" and "buckets b' = butlast (buckets b) @ [bump p (last (buckets b))]"
  shows "recorded b' = recorded b + 1"
proof -
  have "buckets b = butlast (buckets b) @ [last (buckets b)]"
    using assms(1) by simp
  then have "recorded b =
      (\<Sum>bk\<leftarrow>butlast (buckets b). successes bk + failures bk + timeouts bk + ignores bk)
      + (successes (last (buckets b)) + failures (last (buckets b))
         + timeouts (last (buckets b)) + ignores (last (buckets b)))"
    unfolding recorded_def
    by (metis (no_types, lifting) sum_list.Cons sum_list.Nil sum_list.append list.simps(8,9)
          map_append add.right_neutral)
  then show ?thesis
    using assms(2) by (cases p) (simp_all add: recorded_def)
qed

lemmas run_defs =
  run_through_def run_promise_def run_callback_def new_CircuitBreaker_def no_opts_def
  or_default_def isOpen_def settle_def settle_promise_def settle_callback_def increment_def
  incrementShortCircuits_def lastBucket_def updateState_def calculateMetrics_def
  createBucket_def tick_def Let_def percentage_none percentage_all

section \<open>Opening on the thresholds\<close>

text \<open>
  Claim C1. When no force is active and the state is not \<open>HALF_OPEN\<close>, recording an
  outcome (whichever counter it goes to) evaluates the state over the metrics of all
  retained buckets, the new count included: the state is set to \<open>OPEN\<close> and
  \<open>onCircuitOpen(metrics)\<close> is called exactly when \<open>totalCount > volumeThreshold\<close> and
  \<open>errorPercentage > errorThreshold\<close>; otherwise the breaker is left as it is. With the
  default configuration six failed runs in a row open the breaker and five do not, in
  both variants.
\<close>

theorem threshold_opens:
  assumes "forced b = None" and "state b \<noteq> Some HALF_OPEN" and "buckets b \<noteq> []"
  shows "increment v p (Some h, b) =
           Inr (None,
             (let b1 = b\<lparr>buckets := butlast (buckets b) @ [bump p (last (buckets b))]\<rparr>;
                  metrics = calculateMetrics b1
              in if of_nat (totalCount metrics) > volumeThreshold b
                    \<and> errorPercentage metrics > errorThreshold b
                 then b1\<lparr>state := Some OPEN, calls := calls b @ [OnCircuitOpen metrics]\<rparr>
                 else b1))
       \<and> map_sum id isOpen
            (repeatedly 6 (run_through h (Throws e)) (new_CircuitBreaker no_opts)) = Inr True
       \<and> map_sum id isOpen
            (repeatedly 5 (run_through h (Throws e)) (new_CircuitBreaker no_opts)) = Inr False
       \<and> map_sum id isOpen
            (repeatedly 6 (\<lambda>x. map_sum id fst (run_callback h ([Rejected e], None) False x))
               (new_CircuitBreaker no_opts)) = Inr True
       \<and> map_sum id isOpen
            (repeatedly 5 (\<lambda>x. map_sum id fst (run_callback h ([Rejected e], None) False x))
               (new_CircuitBreaker no_opts)) = Inr False"
proof -
  have step: "increment v p (Some h, b) =
           Inr (None,
             (let b1 = b\<lparr>buckets := butlast (buckets b) @ [bump p (last (buckets b))]\<rparr>;
                  metrics = calculateMetrics b1
              in if of_nat (totalCount metrics) > volumeThreshold b
                    \<and> errorPercentage metrics > errorThreshold b
                 then b1\<lparr>state := Some OPEN, calls := calls b @ [OnCircuitOpen metrics]\<rparr>
                 else b1))"
    using assms by (simp add: increment_armed updateState_not_half_open Let_def)
  have six: "map_sum id isOpen
            (repeatedly 6 (run_through h (Throws e)) (new_CircuitBreaker no_opts)) = Inr True"
    by (simp add: eval_nat_numeral run_defs)
  have five: "map_sum id isOpen
            (repeatedly 5 (run_through h (Throws e)) (new_CircuitBreaker no_opts)) = Inr False"
    by (simp add: eval_nat_numeral run_defs)
  have six': "map_sum id isOpen
            (repeatedly 6 (\<lambda>x. map_sum id fst (run_callback h ([Rejected e], None) False x))
               (new_CircuitBreaker no_opts)) = Inr True"
    by (simp add: eval_nat_numeral run_defs)
  have five': "map_sum id isOpen
            (repeatedly 5 (\<lambda>x. map_sum id fst (run_callback h ([Rejected e], None) False x))
               (new_CircuitBreaker no_opts)) = Inr False"
    by (simp add: eval_nat_numeral run_defs)
  from step six five six' five' show ?thesis by blast
qed

text \<open>
  The breaker \<open>ten_of_nineteen\<close> is what nine successful and then ten failed runs make of
  a new breaker with \<open>errorThreshold = 55\<close>. All fields are compared but the filter, which
  no operation assigns.
\<close>

lemma ten_of_nineteen_reachable:
  "map_sum id
     (\<lambda>b. (numBuckets b, errorThreshold b, volumeThreshold b, buckets b, state b, forced b,
           bucketIndex b, calls b))
     (case repeatedly 9 (run_through 1 (Returns () :: (unit, string) command))
             (new_CircuitBreaker (no_opts\<lparr>opt_errorThreshold := Some 55\<rparr>)) of
        Inl f \<Rightarrow> Inl f
      | Inr b \<Rightarrow> repeatedly 10 (run_through 1 (Throws ''fail'' :: (unit, string) command)) b)
   = Inr (numBuckets ten_of_nineteen, errorThreshold ten_of_nineteen,
          volumeThreshold ten_of_nineteen, buckets ten_of_nineteen, state ten_of_nineteen,
          forced ten_of_nineteen, bucketIndex ten_of_nineteen, calls ten_of_nineteen)"
  by code_simp

theorem threshold_opens_witness:
  "forced ten_of_nineteen = None \<and> state ten_of_nineteen \<noteq> Some HALF_OPEN
   \<and> buckets ten_of_nineteen \<noteq> []
   \<and> increment Promise Failures (Some 1, ten_of_nineteen) = Inr (None, eleven_of_twenty)
   \<and> state eleven_of_twenty = Some OPEN"
proof -
  have h: "forced ten_of_nineteen = None" "state ten_of_nineteen \<noteq> Some HALF_OPEN"
    "buckets ten_of_nineteen \<noteq> []"
    by (simp_all add: ten_of_nineteen_def)
  show ?thesis
    using h threshold_opens [OF h, THEN conjunct1, of Promise Failures 1]
    by (simp add: ten_of_nineteen_def eleven_of_twenty_def calculateMetrics_def Let_def
          percentage_11_20)
qed

section \<open>The half-open probe\<close>

lemma probe_before_reachable:
  "map_sum id tick
     (repeatedly 6 (run_through 1 (Throws ''fail'' :: (unit, string) command))
        (tick (new_CircuitBreaker (no_opts\<lparr>opt_numBuckets := Some 1\<rparr>))))
   = Inr probe_before"
  by (simp add: eval_nat_numeral run_defs probe_before_def)

text \<open>
  Claim C3, as the code has it. When no force is active and the state is \<open>HALF_OPEN\<close>,
  recording an outcome sets the state to \<open>OPEN\<close> exactly when the active bucket has no
  success and the aggregate \<open>errorCount\<close> is positive (the promise-style variant then
  calls \<open>onCircuitOpen(metrics)\<close>, the callback-style one calls nothing). In every other
  case, that is when the active bucket has a success or the aggregate \<open>errorCount\<close> is
  zero, it sets the state to \<open>CLOSED\<close> and calls \<open>onCircuitClose(metrics)\<close>.
\<close>

theorem probe_decides:
  assumes "forced b = None" and "state b = Some HALF_OPEN" and "buckets b \<noteq> []"
  shows "increment v p (Some h, b) =
           Inr (None,
             (let b1 = b\<lparr>buckets := butlast (buckets b) @ [bump p (last (buckets b))]\<rparr>;
                  metrics = calculateMetrics b1
              in if successes (last (buckets b1)) = 0 \<and> errorCount metrics > 0
                 then b1\<lparr>state := Some OPEN,
                         calls := calls b @ (if v = Promise then [OnCircuitOpen metrics] else [])\<rparr>
                 else b1\<lparr>state := Some CLOSED, calls := calls b @ [OnCircuitClose metrics]\<rparr>))"
  using assms by (simp add: increment_armed updateState_half_open Let_def)

theorem probe_decides_witness:
  "forced probe_before = None \<and> state probe_before = Some HALF_OPEN \<and> buckets probe_before \<noteq> []
   \<and> increment Callback Failures (Some 1, probe_before) =
       Inr (None, probe_before
         \<lparr>buckets := [\<lparr>failures = 6, successes = 0, timeouts = 0, ignores = 0, shortCircuits = 0\<rparr>,
                    \<lparr>failures = 1, successes = 0, timeouts = 0, ignores = 0, shortCircuits = 0\<rparr>],
          state := Some OPEN\<rparr>)"
proof -
  have h: "forced probe_before = None" "state probe_before = Some HALF_OPEN"
          "buckets probe_before \<noteq> []"
    by (simp_all add: probe_before_def)
  show ?thesis
    using h probe_decides [OF h, of Callback Failures 1]
    by (simp add: probe_before_def calculateMetrics_def Let_def)
qed

text \<open>
  Claim C3, as the specification words it, fails: a probe that succeeds while failures are
  still in the window closes the breaker although the aggregate \<open>errorCount\<close> is \<open>6\<close>,
  not \<open>0\<close>.
\<close>

theorem probe_closes_with_errors:
  "state probe_before = Some HALF_OPEN \<and> forced probe_before = None
   \<and> increment Promise Successes (Some 1, probe_before) = Inr (None, probe_after)
   \<and> state probe_after = Some CLOSED
   \<and> errorCount (calculateMetrics probe_after) = 6
   \<and> successes (last (buckets probe_after)) = 1"
  by (simp add: probe_before_def probe_after_def increment_def lastBucket_def updateState_def
        calculateMetrics_def Let_def double_examples)

section \<open>The guard of one call\<close>

text \<open>
  Claim C4. Of all the events of one call (success, rejection, deadline, in any order and
  number) only the first is acted upon: it records exactly one outcome and clears the
  call's timer variable, and the breaker after all the events is the breaker after the
  first. Once the variable is cleared, an event of that call changes nothing in the
  breaker, whatever the breaker has become in the meantime (no counter, no state
  evaluation, no observer call), and tells the caller nothing.
\<close>

theorem decided_once:
  assumes "buckets b \<noteq> []"
  shows "(\<exists>b' s. settle v ev (Some h, b) = Inr ((None, b'), s)
            \<and> recorded b' = recorded b + 1
            \<and> settle_all v (ev # evs) (Some h, b) = Inr (None, b'))
       \<and> settle v late (None, c) = Inr ((None, c), None)"
proof -
  from settle_armed [OF assms, of v ev h]
  obtain b' s where st: "settle v ev (Some h, b) = Inr ((None, b'), s)"
    and bk: "buckets b' = butlast (buckets b) @ [bump (counter_of v ev b) (last (buckets b))]"
    by blast
  have "recorded b' = recorded b + 1"
    using assms bk by (rule recorded_bump)
  moreover have "settle_all v (ev # evs) (Some h, b) = Inr (None, b')"
    using st by (simp add: settle_all_fired)
  ultimately show ?thesis
    using st settle_fired by blast
qed

theorem decided_once_witness:
  "buckets (new_CircuitBreaker no_opts :: string CircuitBreaker) \<noteq> []
   \<and> (\<exists>b' s. settle Promise (Deadline :: (unit, string) event)
                 (Some 1, new_CircuitBreaker no_opts) = Inr ((None, b'), s)
          \<and> recorded b' = recorded (new_CircuitBreaker no_opts :: string CircuitBreaker) + 1
          \<and> settle_all Promise [Deadline, Fulfilled (), Rejected ''late'']
                (Some 1, new_CircuitBreaker no_opts) = Inr (None, b'))
   \<and> settle Promise (Fulfilled ()) (None, probe_before) = Inr ((None, probe_before), None)"
proof -
  have h: "buckets (new_CircuitBreaker no_opts :: string CircuitBreaker) \<noteq> []"
    by (simp add: new_CircuitBreaker_def)
  show ?thesis
    using h decided_once [OF h, of Promise Deadline 1 "[Fulfilled (), Rejected ''late'']"
                            "Fulfilled ()" probe_before]
    by blast
qed

section \<open>Short circuit\<close>

text \<open>
  Claim C5, as the code has it. While \<open>isOpen()\<close> is true, \<open>run\<close> does not invoke the
  command: whatever the command is, the only changes to the breaker are one more
  \<open>shortCircuits\<close> in the active bucket and, in the callback-style variant, the call of
  the fallback when one was supplied. No other counter moves. The promise-style variant
  rejects the returned promise with \<open>CircuitOpenError\<close>, which is neither the timeout
  error nor a reason of the command. The callback-style variant creates no activation
  and returns: it signals nothing to the caller.
\<close>

theorem short_circuit:
  assumes "isOpen b" and "buckets b \<noteq> []"
  shows "run_promise h command b =
           Inr (b\<lparr>buckets := butlast (buckets b)
                    @ [(last (buckets b))\<lparr>shortCircuits := shortCircuits (last (buckets b)) + 1\<rparr>]\<rparr>,
                Refused CircuitOpenError)
       \<and> run_callback h ccommand fallback b =
           Inr (b\<lparr>calls := calls b @ (if fallback then [FallbackInvoked] else []),
                  buckets := butlast (buckets b)
                    @ [(last (buckets b))\<lparr>shortCircuits := shortCircuits (last (buckets b)) + 1\<rparr>]\<rparr>,
                (None, Returned))
       \<and> CircuitOpenError \<noteq> CircuitWorkerTimeout \<and> CircuitOpenError \<noteq> Reason reason"
  using assms
  by (simp add: run_promise_def run_callback_def incrementShortCircuits_def lastBucket_def)

theorem short_circuit_witness:
  "isOpen (forceOpen (new_CircuitBreaker no_opts :: string CircuitBreaker))
   \<and> buckets (forceOpen (new_CircuitBreaker no_opts :: string CircuitBreaker)) \<noteq> []
   \<and> run_promise 1 (Returns ()) (forceOpen (new_CircuitBreaker no_opts :: string CircuitBreaker)) =
       Inr ((forceOpen (new_CircuitBreaker no_opts))
              \<lparr>buckets := [\<lparr>failures = 0, successes = 0, timeouts = 0, ignores = 0,
                             shortCircuits = 1\<rparr>]\<rparr>,
            Refused CircuitOpenError)
   \<and> run_callback 1 ([Fulfilled ()], None)
        True (forceOpen (new_CircuitBreaker no_opts :: string CircuitBreaker)) =
       Inr ((forceOpen (new_CircuitBreaker no_opts))
              \<lparr>calls := [FallbackInvoked],
                buckets := [\<lparr>failures = 0, successes = 0, timeouts = 0, ignores = 0,
                             shortCircuits = 1\<rparr>]\<rparr>,
            (None, Returned))"
proof -
  have h: "isOpen (forceOpen (new_CircuitBreaker no_opts :: string CircuitBreaker))"
    "buckets (forceOpen (new_CircuitBreaker no_opts :: string CircuitBreaker)) \<noteq> []"
    by (simp_all add: isOpen_def forceOpen_def new_CircuitBreaker_def)
  show ?thesis
    using h short_circuit [OF h, of 1 "Returns ()" "([Fulfilled ()], None)" True]
    by (simp add: forceOpen_def new_CircuitBreaker_def createBucket_def)
qed

text \<open>
  Claim C5, for the callback-style variant, fails where it says that the caller is
  signalled a failure: on an open breaker and with no fallback, \<open>run\<close> counts the short
  circuit and returns, with no call to any function of the caller. The caller observes
  the same return as from a run on a closed breaker whose command succeeds at once.
\<close>

theorem callback_short_circuit_silent:
  "isOpen (forceOpen (new_CircuitBreaker no_opts :: string CircuitBreaker))
   \<and> run_callback 1 ([Fulfilled ()], None)
        False (forceOpen (new_CircuitBreaker no_opts :: string CircuitBreaker)) =
       Inr ((forceOpen (new_CircuitBreaker no_opts))
              \<lparr>buckets := [\<lparr>failures = 0, successes = 0, timeouts = 0, ignores = 0,
                             shortCircuits = 1\<rparr>]\<rparr>,
            (None, Returned))
   \<and> calls (forceOpen (new_CircuitBreaker no_opts :: string CircuitBreaker)) = []
   \<and> run_callback 1 ([Fulfilled ()], None)
        False (new_CircuitBreaker no_opts :: string CircuitBreaker) =
       Inr ((new_CircuitBreaker no_opts)
              \<lparr>buckets := [\<lparr>failures = 0, successes = 1, timeouts = 0, ignores = 0,
                             shortCircuits = 0\<rparr>],
                calls := [CommandInvoked]\<rparr>,
            (Some None, Returned))"
  by (simp add: forceOpen_def run_defs)

section \<open>Manual override\<close>

text \<open>
  Claim C6. \<open>forceClose()\<close> and \<open>forceOpen()\<close> copy the current state into \<open>forced\<close> and set
  the state to \<open>CLOSED\<close> and \<open>OPEN\<close>, so that \<open>isOpen()\<close> is false and true. While \<open>forced\<close>
  is not null, recording an outcome increments its counter in the active bucket and
  changes nothing else in the breaker: the state is not evaluated, and \<open>state\<close> and
  \<open>forced\<close> stay as they are. \<open>unforce()\<close> copies \<open>forced\<close> back into the state and sets
  \<open>forced\<close> to null.
\<close>

theorem force_suspends_evaluation:
  "forced (forceClose b) = state b \<and> state (forceClose b) = Some CLOSED \<and> \<not> isOpen (forceClose b)
   \<and> forced (forceOpen b) = state b \<and> state (forceOpen b) = Some OPEN \<and> isOpen (forceOpen b)
   \<and> (forced b \<noteq> None \<and> buckets b \<noteq> [] \<longrightarrow>
        increment v p (Some h, b) =
          Inr (None, b\<lparr>buckets := butlast (buckets b) @ [bump p (last (buckets b))]\<rparr>))
   \<and> state (unforce b) = forced b \<and> forced (unforce b) = None"
  by (auto simp add: forceClose_def forceOpen_def unforce_def isOpen_def increment_armed)

theorem force_suspends_evaluation_witness:
  "forced (forceClose probe_before) \<noteq> None \<and> buckets (forceClose probe_before) \<noteq> []
   \<and> increment Promise Successes (Some 1, forceClose probe_before) =
       Inr (None, (forceClose probe_before)
         \<lparr>buckets := [\<lparr>failures = 6, successes = 0, timeouts = 0, ignores = 0, shortCircuits = 0\<rparr>,
                      \<lparr>failures = 0, successes = 1, timeouts = 0, ignores = 0, shortCircuits = 0\<rparr>]\<rparr>)
   \<and> state (unforce (forceClose probe_before)) = Some HALF_OPEN"
  using force_suspends_evaluation [of "forceClose probe_before" Promise Successes 1]
        force_suspends_evaluation [of probe_before Promise Successes 1]
  by (simp add: forceClose_def probe_before_def)

text \<open>
  Claim C10. A force saves whatever the state is at that moment, so a second force saves
  the state that the first one pinned, and the state from before the first force is
  lost: after two forces \<open>unforce()\<close> restores the state pinned by the first. In
  particular \<open>forceOpen(); forceOpen(); unforce()\<close> leaves the breaker open from any
  starting state, whereas \<open>forceOpen(); unforce()\<close> gives the starting state back.
\<close>

theorem second_force_overwrites:
  "forced (forceOpen b) = state b \<and> forced (forceClose b) = state b
   \<and> forced (forceOpen (forceOpen b)) = Some OPEN
   \<and> forced (forceClose (forceOpen b)) = Some OPEN
   \<and> forced (forceOpen (forceClose b)) = Some CLOSED
   \<and> forced (forceClose (forceClose b)) = Some CLOSED
   \<and> isOpen (unforce (forceOpen (forceOpen b)))
   \<and> isOpen (unforce (forceClose (forceOpen b)))
   \<and> state (unforce (forceOpen (forceClose b))) = Some CLOSED
   \<and> state (unforce (forceClose (forceClose b))) = Some CLOSED
   \<and> state (unforce (forceOpen b)) = state b"
  by (simp add: forceOpen_def forceClose_def unforce_def isOpen_def)

section \<open>The ticker and the half-open state\<close>

lemma tripped_reachable:
  "repeatedly 6 (run_through 1 (Throws ''fail'' :: (unit, string) command))
        (tick (new_CircuitBreaker (no_opts\<lparr>opt_numBuckets := Some 1\<rparr>)))
   = Inr tripped"
  by (simp add: eval_nat_numeral run_defs tripped_def)

lemma updateState_keeps:
  "updateState v b = Inr b' \<Longrightarrow>
   forced b' = forced b
   \<and> (state b = Some OPEN \<longrightarrow> state b' = Some OPEN)
   \<and> (state b \<noteq> Some HALF_OPEN \<longrightarrow> state b' \<noteq> Some HALF_OPEN)"
  by (auto simp: updateState_def Let_def split: if_splits option.splits variant.splits)

lemma map_sum_id_Inr: "map_sum id g x = Inr y \<longleftrightarrow> (\<exists>z. x = Inr z \<and> y = g z)"
  by (cases x) auto

lemma increment_keeps:
  "increment v p (t, b) = Inr (t', b') \<Longrightarrow>
   forced b' = forced b
   \<and> (state b = Some OPEN \<longrightarrow> state b' = Some OPEN)
   \<and> (state b \<noteq> Some HALF_OPEN \<longrightarrow> state b' \<noteq> Some HALF_OPEN)"
  by (auto simp: increment_def Let_def lastBucket_def map_sum_id_Inr dest!: updateState_keeps
        split: if_splits)

lemma settle_keeps:
  "settle v ev (t, b) = Inr ((t', b'), s) \<Longrightarrow>
   forced b' = forced b
   \<and> (state b = Some OPEN \<longrightarrow> state b' = Some OPEN)
   \<and> (state b \<noteq> Some HALF_OPEN \<longrightarrow> state b' \<noteq> Some HALF_OPEN)"
  by (cases v; cases ev)
     (auto simp: settle_def settle_promise_def settle_callback_def map_sum_id_Inr
        dest!: increment_keeps split: if_splits)

lemma settle_all_keeps:
  "settle_all v evs (t, b) = Inr (t', b') \<Longrightarrow>
   forced b' = forced b
   \<and> (state b = Some OPEN \<longrightarrow> state b' = Some OPEN)
   \<and> (state b \<noteq> Some HALF_OPEN \<longrightarrow> state b' \<noteq> Some HALF_OPEN)"
proof (induction evs arbitrary: t b)
  case Nil
  then show ?case by simp
next
  case (Cons ev evs)
  from Cons.prems obtain t1 b1 s where
    one: "settle v ev (t, b) = Inr ((t1, b1), s)" and rest: "settle_all v evs (t1, b1) = Inr (t', b')"
    by (auto split: sum.splits)
  from settle_keeps [OF one] Cons.IH [OF rest] show ?case by auto
qed

lemma incrementShortCircuits_keeps:
  "incrementShortCircuits b = Inr b' \<Longrightarrow> forced b' = forced b \<and> state b' = state b"
  by (auto simp: incrementShortCircuits_def split: option.splits)

lemma run_promise_keeps:
  "run_promise h command b = Inr (b', r) \<Longrightarrow> forced b' = forced b \<and> state b' = state b"
  by (auto simp: run_promise_def map_sum_id_Inr dest!: incrementShortCircuits_keeps
        split: if_splits)

lemma run_callback_keeps:
  "run_callback h command fallback b = Inr (b', r) \<Longrightarrow>
   forced b' = forced b
   \<and> (state b = Some OPEN \<longrightarrow> state b' = Some OPEN)
   \<and> (state b \<noteq> Some HALF_OPEN \<longrightarrow> state b' \<noteq> Some HALF_OPEN)"
proof (cases "isOpen b")
  case True
  assume "run_callback h command fallback b = Inr (b', r)"
  with True show ?thesis
    by (auto simp: run_callback_def map_sum_id_Inr dest!: incrementShortCircuits_keeps
          split: if_splits)
next
  case False
  assume "run_callback h command fallback b = Inr (b', r)"
  with False obtain t' where
    "settle_all Callback (fst command) (Some h, b\<lparr>calls := calls b @ [CommandInvoked]\<rparr>)
       = Inr (t', b')"
    by (auto simp: run_callback_def map_sum_id_Inr)
  from settle_all_keeps [OF this] show ?thesis by simp
qed

text \<open>
  Claim C7. A tick drops the oldest bucket when more than \<open>numBuckets\<close> are held and
  appends a fresh one, and it counts itself; when the count exceeds \<open>numBuckets\<close> it goes
  back to zero, and if the state is \<open>OPEN\<close> at that moment it becomes \<open>HALF_OPEN\<close>; in every
  other case a tick leaves the state alone. Nothing but the ticker produces \<open>HALF_OPEN\<close>:
  the command executor (a settling command, a firing deadline, \<open>run\<close> itself) leaves an
  \<open>OPEN\<close> state \<open>OPEN\<close>, and when neither \<open>state\<close> nor \<open>forced\<close> is \<open>HALF_OPEN\<close> no operation
  other than a tick makes either of them \<open>HALF_OPEN\<close>.
\<close>

theorem only_ticker_half_opens:
  "buckets (tick b) =
     (if length (buckets b) > numBuckets b then tl (buckets b) else buckets b) @ [createBucket]
   \<and> bucketIndex (tick b) = (if bucketIndex b + 1 > numBuckets b then 0 else bucketIndex b + 1)
   \<and> state (tick b) =
       (if bucketIndex b + 1 > numBuckets b \<and> state b = Some OPEN then Some HALF_OPEN
        else state b)
   \<and> forced (tick b) = forced b
   \<and> (state b = Some OPEN \<and> settle v ev (t, b) = Inr ((t', b1), s) \<longrightarrow> state b1 = Some OPEN)
   \<and> (state b = Some OPEN \<and> run_promise h command b = Inr (b2, r) \<longrightarrow> state b2 = Some OPEN)
   \<and> (state b = Some OPEN \<and> run_callback h ccommand fallback b = Inr (b3, r') \<longrightarrow>
        state b3 = Some OPEN)
   \<and> (state b \<noteq> Some HALF_OPEN \<and> forced b \<noteq> Some HALF_OPEN \<longrightarrow>
        state (forceOpen b) \<noteq> Some HALF_OPEN \<and> forced (forceOpen b) \<noteq> Some HALF_OPEN
        \<and> state (forceClose b) \<noteq> Some HALF_OPEN \<and> forced (forceClose b) \<noteq> Some HALF_OPEN
        \<and> state (unforce b) \<noteq> Some HALF_OPEN \<and> forced (unforce b) \<noteq> Some HALF_OPEN
        \<and> (settle v ev (t, b) = Inr ((t', b1), s) \<longrightarrow>
             state b1 \<noteq> Some HALF_OPEN \<and> forced b1 \<noteq> Some HALF_OPEN)
        \<and> (run_promise h command b = Inr (b2, r) \<longrightarrow>
             state b2 \<noteq> Some HALF_OPEN \<and> forced b2 \<noteq> Some HALF_OPEN)
        \<and> (run_callback h ccommand fallback b = Inr (b3, r') \<longrightarrow>
             state b3 \<noteq> Some HALF_OPEN \<and> forced b3 \<noteq> Some HALF_OPEN))"
proof -
  have ticker: "buckets (tick b) =
       (if length (buckets b) > numBuckets b then tl (buckets b) else buckets b) @ [createBucket]
     \<and> bucketIndex (tick b) = (if bucketIndex b + 1 > numBuckets b then 0 else bucketIndex b + 1)
     \<and> state (tick b) =
         (if bucketIndex b + 1 > numBuckets b \<and> state b = Some OPEN then Some HALF_OPEN
          else state b)
     \<and> forced (tick b) = forced b"
    by (simp add: tick_def isOpen_def Let_def)
  have force: "state b \<noteq> Some HALF_OPEN \<and> forced b \<noteq> Some HALF_OPEN \<longrightarrow>
        state (forceOpen b) \<noteq> Some HALF_OPEN \<and> forced (forceOpen b) \<noteq> Some HALF_OPEN
        \<and> state (forceClose b) \<noteq> Some HALF_OPEN \<and> forced (forceClose b) \<noteq> Some HALF_OPEN
        \<and> state (unforce b) \<noteq> Some HALF_OPEN \<and> forced (unforce b) \<noteq> Some HALF_OPEN"
    by (simp add: forceOpen_def forceClose_def unforce_def)
  from ticker force settle_keeps [of v ev t b t' b1 s] run_promise_keeps [of h command b b2 r]
    run_callback_keeps [of h ccommand fallback b b3 r']
  show ?thesis by auto
qed


theorem only_ticker_half_opens_witness:
  "state tripped = Some OPEN \<and> forced tripped \<noteq> Some HALF_OPEN
   \<and> settle Promise (Rejected ''late'' :: (unit, string) event) (Some 1, tripped) =
       Inr ((None, tripped_again), Some (Reject (Reason ''late'')))
   \<and> run_promise 1 (Returns () :: (unit, string) command) tripped =
       Inr (tripped_refused, Refused CircuitOpenError)
   \<and> run_callback 1 (([], None) :: (unit, string) callback_command) False tripped =
       Inr (tripped_refused, (None, Returned))
   \<and> state tripped_again = Some OPEN \<and> forced tripped_again = None
   \<and> state tripped_refused = Some OPEN \<and> forced tripped_refused = None
   \<and> state (unforce (forceClose tripped)) = Some OPEN
   \<and> state (tick tripped) = Some HALF_OPEN
   \<and> tick tripped = probe_before"
proof -
  have s: "settle Promise (Rejected ''late'' :: (unit, string) event) (Some 1, tripped) =
       Inr ((None, tripped_again), Some (Reject (Reason ''late'')))"
    by (simp add: tripped_def tripped_again_def run_defs)
  have p: "run_promise 1 (Returns () :: (unit, string) command) tripped =
       Inr (tripped_refused, Refused CircuitOpenError)"
    by (simp add: tripped_def tripped_refused_def run_defs)
  have c: "run_callback 1 (([], None) :: (unit, string) callback_command) False tripped =
       Inr (tripped_refused, (None, Returned))"
    by (simp add: tripped_def tripped_refused_def run_defs)
  have o: "state tripped = Some OPEN" "forced tripped \<noteq> Some HALF_OPEN"
    "bucketIndex tripped + 1 > numBuckets tripped"
    by (simp_all add: tripped_def)
  have t: "tick tripped = probe_before"
    by (simp add: tripped_def probe_before_def run_defs)
  have u: "state (unforce (forceClose tripped)) = Some OPEN"
    by (simp add: unforce_def forceClose_def tripped_def)
  have k: "state tripped_again = Some OPEN \<and> forced tripped_again \<noteq> Some HALF_OPEN
       \<and> state tripped_refused = Some OPEN \<and> forced tripped_refused \<noteq> Some HALF_OPEN
       \<and> state (tick tripped) = Some HALF_OPEN"
    using s p c o
      only_ticker_half_opens [where b = tripped and v = Promise
        and ev = "Rejected ''late'' :: (unit, string) event" and t = "Some 1" and t' = None
        and ?b1.0 = tripped_again and s = "Some (Reject (Reason ''late''))" and h = 1
        and command = "Returns () :: (unit, string) command" and ?b2.0 = tripped_refused
        and r = "Refused CircuitOpenError"
        and ccommand = "([], None) :: (unit, string) callback_command" and fallback = False
        and ?b3.0 = tripped_refused and r' = "(None, Returned)"]
    by simp
  have f: "forced tripped_again = None" "forced tripped_refused = None"
    by (simp_all add: tripped_again_def tripped_refused_def tripped_def)
  from k s p c o t u f show ?thesis by blast
qed

section \<open>Rejections and the filter\<close>

lemma metrics_loop_append:
  "metrics_loop (xs @ ys) t e = (case metrics_loop xs t e of (t', e') \<Rightarrow> metrics_loop ys t' e')"
  by (induction xs arbitrary: t e) (simp_all add: Let_def)

lemma calculateMetrics_ignore:
  assumes "buckets b \<noteq> []"
    and "buckets b' = butlast (buckets b) @ [bump Ignores (last (buckets b))]"
  shows "calculateMetrics b' = calculateMetrics b"
proof -
  have "metrics_loop (butlast (buckets b) @ [bump Ignores (last (buckets b))]) 0 0
        = metrics_loop (butlast (buckets b) @ [last (buckets b)]) 0 0"
    by (simp add: metrics_loop_append Let_def split: prod.splits)
  with assms show ?thesis by (simp add: calculateMetrics_def)
qed

lemma settle_rejected:
  assumes "buckets b \<noteq> []"
  shows "\<exists>b'. settle Promise (Rejected reason) (Some h, b) =
                 Inr ((None, b'), Some (Reject (Reason reason)))
            \<and> buckets b' = butlast (buckets b)
                 @ [bump (if circuitFilter b reason then Failures else Ignores) (last (buckets b))]
            \<and> (\<not> circuitFilter b reason \<longrightarrow> calculateMetrics b' = calculateMetrics b)"
proof -
  let ?p = "if circuitFilter b reason then Failures else Ignores"
  from increment_armed_result [OF assms, of Promise ?p h]
  obtain b' where i: "increment Promise ?p (Some h, b) = Inr (None, b')"
    and bk: "buckets b' = butlast (buckets b) @ [bump ?p (last (buckets b))]"
    by blast
  from i have "settle Promise (Rejected reason) (Some h, b) =
                 Inr ((None, b'), Some (Reject (Reason reason)))"
    by (simp add: settle_def settle_promise_def split: if_splits)
  moreover have "\<not> circuitFilter b reason \<longrightarrow> calculateMetrics b' = calculateMetrics b"
    using assms bk by (auto intro: calculateMetrics_ignore)
  ultimately show ?thesis using bk by blast
qed

text \<open>
  Claim C8. In the promise-style variant, when a command is rejected while its timer is
  still armed, the reason goes to \<open>circuitFilter\<close>: if the filter returns false the
  active bucket's \<open>ignores\<close> is incremented, and the metrics (\<open>totalCount\<close>, \<open>errorCount\<close>,
  \<open>errorPercentage\<close>) are what they were before; otherwise \<open>failures\<close> is incremented. In
  both cases the returned promise is rejected with that very reason.
\<close>

theorem rejection_filtered:
  assumes "buckets b \<noteq> []"
  shows "\<exists>b'. settle Promise (Rejected reason) (Some h, b) =
                 Inr ((None, b'), Some (Reject (Reason reason)))
            \<and> buckets b' = butlast (buckets b)
                 @ [bump (if circuitFilter b reason then Failures else Ignores) (last (buckets b))]
            \<and> (\<not> circuitFilter b reason \<longrightarrow> calculateMetrics b' = calculateMetrics b)"
  using assms by (rule settle_rejected)

theorem rejection_filtered_witness:
  "buckets picky \<noteq> []
   \<and> (\<exists>b'. settle Promise (Rejected ''not found'' :: (unit, string) event) (Some 1, picky) =
                 Inr ((None, b'), Some (Reject (Reason ''not found'')))
          \<and> buckets b' = [\<lparr>failures = 0, successes = 0, timeouts = 0, ignores = 1,
                             shortCircuits = 0\<rparr>]
          \<and> calculateMetrics b' = calculateMetrics picky)"
proof -
  have h: "buckets picky \<noteq> []" by (simp add: picky_def new_CircuitBreaker_def)
  from rejection_filtered [OF h, of "''not found''" 1, where ?'b = unit] h
  show ?thesis
    by (simp add: picky_def new_CircuitBreaker_def no_opts_def createBucket_def)
qed

section \<open>Commands that throw\<close>

text \<open>
  Claim C9, as the code has it. In the promise-style variant a command that throws when
  it is called is treated like one that returns a rejected promise: \<open>run\<close> does not
  throw, the command is in flight with its timer armed, and the rejection callback
  then counts the thrown value as a failure or an ignore, as the filter says, and
  rejects the returned promise with it. In the callback-style variant the thrown value
  is not caught: whatever the command did before it threw, the value leaves \<open>run\<close> as an
  exception, and the breaker and the timer are what they would be had the command
  returned instead.
\<close>

theorem sync_throw:
  assumes "\<not> isOpen b" and "buckets b \<noteq> []"
  shows "run_promise h (Throws e) b = run_promise h (ReturnsPromise (Rejects e)) b
       \<and> run_promise h (Throws e) b =
           Inr (b\<lparr>calls := calls b @ [CommandInvoked]\<rparr>, Executing (Some h) (Rejects e))
       \<and> (\<exists>b'. settle Promise (fate (Rejects e)) (Some h, b\<lparr>calls := calls b @ [CommandInvoked]\<rparr>) =
                  Inr ((None, b'), Some (Reject (Reason e)))
             \<and> buckets b' = butlast (buckets b)
                  @ [bump (if circuitFilter b e then Failures else Ignores) (last (buckets b))])
       \<and> (\<exists>b' t'. run_callback h (evs, Some e) fallback b = Inr (b', (Some t', Threw e))
             \<and> run_callback h (evs, None) fallback b = Inr (b', (Some t', Returned)))"
proof -
  let ?b = "b\<lparr>calls := calls b @ [CommandInvoked]\<rparr>"
  have ne: "buckets ?b \<noteq> []" using assms(2) by simp
  from settle_rejected [OF ne, of e h]
  have p: "\<exists>b'. settle Promise (fate (Rejects e)) (Some h, ?b) =
                  Inr ((None, b'), Some (Reject (Reason e)))
             \<and> buckets b' = butlast (buckets b)
                  @ [bump (if circuitFilter b e then Failures else Ignores) (last (buckets b))]"
    by auto
  from settle_all_returns [OF ne, of Callback evs "Some h"]
  obtain t' b' where "settle_all Callback evs (Some h, ?b) = Inr (t', b')"
    by blast
  then have c: "\<exists>b' t'. run_callback h (evs, Some e) fallback b = Inr (b', (Some t', Threw e))
             \<and> run_callback h (evs, None) fallback b = Inr (b', (Some t', Returned))"
    using assms(1) by (simp add: run_callback_def)
  from p c show ?thesis
    using assms(1) by (simp add: run_promise_def)
qed

theorem sync_throw_witness:
  "\<not> isOpen (new_CircuitBreaker no_opts :: string CircuitBreaker)
   \<and> buckets (new_CircuitBreaker no_opts :: string CircuitBreaker) \<noteq> []
   \<and> run_promise 1 (Throws ''boom'' :: (unit, string) command) (new_CircuitBreaker no_opts) =
       Inr ((new_CircuitBreaker no_opts)\<lparr>calls := [CommandInvoked]\<rparr>,
            Executing (Some 1) (Rejects ''boom''))"
proof -
  have h: "\<not> isOpen (new_CircuitBreaker no_opts :: string CircuitBreaker)"
    "buckets (new_CircuitBreaker no_opts :: string CircuitBreaker) \<noteq> []"
    by (simp_all add: isOpen_def new_CircuitBreaker_def)
  from sync_throw [OF h, THEN conjunct2, THEN conjunct1, of 1 "''boom''"] h
  show ?thesis
    by (simp add: new_CircuitBreaker_def)
qed

text \<open>
  Claim C9, for every command, fails in the callback-style variant: on a new breaker a
  command that throws \<open>''boom''\<close> makes \<open>run\<close> end with that exception, and the thrown
  value is counted neither as a failure nor as an ignore.
\<close>

theorem callback_throw_escapes:
  "run_callback 1 ([] :: (unit, string) event list, Some ''boom'') False
     (new_CircuitBreaker no_opts) =
   Inr ((new_CircuitBreaker no_opts)\<lparr>calls := [CommandInvoked]\<rparr>,
        (Some (Some 1), Threw ''boom''))"
  by (simp add: run_callback_def isOpen_def new_CircuitBreaker_def)

end
